theory Spec2Isabelle
  imports Complex_Main "HOL-Library.Sublist"
begin

section \<open>Python strings\<close>

text \<open>
  A Python \<open>str\<close> is modelled as a \<open>string\<close> in which every \<open>char\<close> stands for one code
  point below 256, so \<open>length\<close> is Python's \<open>len\<close> on such strings. The predicates below
  are the restrictions of \<open>str.isspace\<close> and \<open>str.lower\<close> to that range. Beyond it
  \<open>str.lower\<close> can change the length of a string (U+0130 lower-cases to two code points);
  no theorem of a claim below rests on \<open>lower\<close> keeping the length.
\<close>

definition isspace :: "char \<Rightarrow> bool" where
  "isspace c = (of_char c \<in> {9, 10, 11, 12, 13, 28, 29, 30, 31, 32, 133, 160 :: nat})"

definition lower_char :: "char \<Rightarrow> char" where
  "lower_char c =
     (let n = (of_char c :: nat)
      in if (65 \<le> n \<and> n \<le> 90) \<or> (192 \<le> n \<and> n \<le> 222 \<and> n \<noteq> 215)
         then char_of (n + 32) else c)"

definition lower :: "string \<Rightarrow> string" where
  "lower s = map lower_char s"

definition lstrip :: "string \<Rightarrow> string" where
  "lstrip s = dropWhile isspace s"

definition rstrip :: "string \<Rightarrow> string" where
  "rstrip s = rev (dropWhile isspace (rev s))"

definition strip :: "string \<Rightarrow> string" where
  "strip s = lstrip (rstrip s)"

text \<open>
  \<open>s.split(maxsplit=k)\<close> with no separator: runs of whitespace separate the tokens, at most
  \<open>k\<close> splits are made, and what follows the last split (leading whitespace skipped,
  trailing whitespace kept) is the final token.
\<close>

function split_max :: "nat \<Rightarrow> string \<Rightarrow> string list" where
  "split_max k s =
     (let r = dropWhile isspace s
      in if r = [] then []
         else if k = 0 then [r]
         else takeWhile (\<lambda>c. \<not> isspace c) r
              # split_max (k - 1) (dropWhile (\<lambda>c. \<not> isspace c) r))"
  by pat_completeness auto
termination
proof (relation "measure (\<lambda>(k, s). length s)")
  show "wf (measure (\<lambda>(k, s). length s))" by simp
next
  fix k :: nat and s r :: string
  assume r: "r = dropWhile isspace s" and ne: "r \<noteq> []"
  from ne obtain c t where ct: "r = c # t" by (cases r) auto
  from r ct have "dropWhile isspace s = c # t" by simp
  then have "\<not> isspace c"
    by (simp add: dropWhile_eq_Cons_conv)
  then have "length (dropWhile (\<lambda>c. \<not> isspace c) r) \<le> length t"
    using ct length_dropWhile_le [of "\<lambda>c. \<not> isspace c" t] by simp
  moreover have "length r \<le> length s"
    using r length_dropWhile_le [of isspace s] by simp
  ultimately show "((k - 1, dropWhile (\<lambda>c. \<not> isspace c) r), (k, s))
      \<in> measure (\<lambda>(k, s). length s)"
    using ct by simp
qed

declare split_max.simps [simp del]

fun join :: "string \<Rightarrow> string list \<Rightarrow> string" where
  "join sep [] = []"
| "join sep [x] = x"
| "join sep (x # y # ys) = x @ sep @ join sep (y # ys)"

text \<open>\<open>k in text\<close> on strings: \<open>k\<close> occurs as a contiguous substring.\<close>

fun py_in :: "string \<Rightarrow> string \<Rightarrow> bool" where
  "py_in k [] = (k = [])"
| "py_in k (c # t) = (prefix k (c # t) \<or> py_in k t)"

section \<open>Python values\<close>

text \<open>
  The values a memory-store response decodes to (\<open>resp.json()\<close> or \<open>resp.text\<close>): JSON
  without floating-point numbers. A \<open>dict\<close> is an association list in insertion order;
  lookup takes the first binding of a key.
\<close>

datatype pyval =
    PNone
  | PBool bool
  | PInt int
  | PStr string
  | PList "pyval list"
  | PDict "(string \<times> pyval) list"

datatype exn =
    AttributeError string
  | TypeError string
  | IndexError string
  | OtherException string

fun exn_str :: "exn \<Rightarrow> string" where
  "exn_str (AttributeError m) = m"
| "exn_str (TypeError m) = m"
| "exn_str (IndexError m) = m"
| "exn_str (OtherException m) = m"

fun truthy :: "pyval \<Rightarrow> bool" where
  "truthy PNone = False"
| "truthy (PBool b) = b"
| "truthy (PInt i) = (i \<noteq> 0)"
| "truthy (PStr s) = (s \<noteq> [])"
| "truthy (PList xs) = (xs \<noteq> [])"
| "truthy (PDict kvs) = (kvs \<noteq> [])"

text \<open>\<open>a or b\<close> where evaluating \<open>b\<close> cannot raise.\<close>

definition py_or :: "pyval \<Rightarrow> pyval \<Rightarrow> pyval" where
  "py_or a b = (if truthy a then a else b)"

fun type_name :: "pyval \<Rightarrow> string" where
  "type_name PNone = ''NoneType''"
| "type_name (PBool b) = ''bool''"
| "type_name (PInt i) = ''int''"
| "type_name (PStr s) = ''str''"
| "type_name (PList xs) = ''list''"
| "type_name (PDict kvs) = ''dict''"

fun is_dict :: "pyval \<Rightarrow> bool" where
  "is_dict (PDict kvs) = True"
| "is_dict v = False"

fun is_list :: "pyval \<Rightarrow> bool" where
  "is_list (PList xs) = True"
| "is_list v = False"


text \<open>\<open>d.get(k)\<close> and \<open>d.get(k, default)\<close> on a dict.\<close>

definition dict_get_default :: "(string \<times> pyval) list \<Rightarrow> string \<Rightarrow> pyval \<Rightarrow> pyval" where
  "dict_get_default d k dflt = (case map_of d k of None \<Rightarrow> dflt | Some v \<Rightarrow> v)"

definition dict_get :: "(string \<times> pyval) list \<Rightarrow> string \<Rightarrow> pyval" where
  "dict_get d k = dict_get_default d k PNone"

text \<open>\<open>v.get(k)\<close> on an arbitrary value: only a dict has the method.\<close>

definition method_get :: "pyval \<Rightarrow> string \<Rightarrow> exn + pyval" where
  "method_get v k =
     (case v of
        PDict d \<Rightarrow> Inr (dict_get d k)
      | _ \<Rightarrow> Inl (AttributeError
                 ([CHR 0x27] @ type_name v @ [CHR 0x27] @ '' object has no attribute ''
                  @ [CHR 0x27] @ ''get'' @ [CHR 0x27])))"

subsection \<open>\<open>str\<close> and \<open>repr\<close>\<close>

fun digits :: "nat \<Rightarrow> string" where
  "digits n =
     (if n < 10 then [char_of (48 + n)]
      else digits (n div 10) @ [char_of (48 + n mod 10)])"

declare digits.simps [simp del]

definition str_int :: "int \<Rightarrow> string" where
  "str_int i = (if i < 0 then CHR ''-'' # digits (nat (- i)) else digits (nat i))"

definition hex_digit :: "nat \<Rightarrow> char" where
  "hex_digit n = (if n < 10 then char_of (48 + n) else char_of (87 + n))"

definition isprintable :: "char \<Rightarrow> bool" where
  "isprintable c =
     (let n = (of_char c :: nat)
      in (32 \<le> n \<and> n < 127) \<or> (161 \<le> n \<and> n \<noteq> 173))"

definition repr_char :: "char \<Rightarrow> char \<Rightarrow> string" where
  "repr_char q c =
     (let n = (of_char c :: nat)
      in if c = q \<or> c = CHR 0x5C then [CHR 0x5C, c]
         else if n = 9 then [CHR 0x5C, CHR ''t'']
         else if n = 10 then [CHR 0x5C, CHR ''n'']
         else if n = 13 then [CHR 0x5C, CHR ''r'']
         else if isprintable c then [c]
         else [CHR 0x5C, CHR ''x'', hex_digit (n div 16), hex_digit (n mod 16)])"

definition repr_str :: "string \<Rightarrow> string" where
  "repr_str s =
     (let q = (if CHR 0x27 \<in> set s \<and> CHR 0x22 \<notin> set s then CHR 0x22 else CHR 0x27)
      in [q] @ concat (map (repr_char q) s) @ [q])"

fun py_repr :: "pyval \<Rightarrow> string" where
  "py_repr PNone = ''None''"
| "py_repr (PBool b) = (if b then ''True'' else ''False'')"
| "py_repr (PInt i) = str_int i"
| "py_repr (PStr s) = repr_str s"
| "py_repr (PList xs) = ''['' @ join '', '' (map py_repr xs) @ '']''"
| "py_repr (PDict kvs) =
     ''{'' @ join '', '' (map (\<lambda>(k, v). repr_str k @ '': '' @ py_repr v) kvs) @ ''}''"

definition py_str :: "pyval \<Rightarrow> string" where
  "py_str v = (case v of PStr s \<Rightarrow> s | _ \<Rightarrow> py_repr v)"

text \<open>\<open>sep.join(items)\<close>: every item must be a \<open>str\<close>.\<close>

fun join_items :: "nat \<Rightarrow> pyval list \<Rightarrow> exn + string list" where
  "join_items i [] = Inr []"
| "join_items i (v # vs) =
     (case v of
        PStr s \<Rightarrow> (case join_items (Suc i) vs of Inl e \<Rightarrow> Inl e | Inr ss \<Rightarrow> Inr (s # ss))
      | _ \<Rightarrow> Inl (TypeError (''sequence item '' @ digits i @ '': expected str instance, ''
                               @ type_name v @ '' found'')))"

definition str_join :: "string \<Rightarrow> pyval list \<Rightarrow> exn + string" where
  "str_join sep vs = (case join_items 0 vs of Inl e \<Rightarrow> Inl e | Inr ss \<Rightarrow> Inr (join sep ss))"

text \<open>\<open>xs[:n]\<close>: a negative bound counts from the end.\<close>

definition slice_to :: "'a list \<Rightarrow> int \<Rightarrow> 'a list" where
  "slice_to xs n = (if 0 \<le> n then take (nat n) xs else take (nat (int (length xs) + n)) xs)"

section \<open>Memory formatting helpers\<close>

text \<open>\<open>_normalize_mem_items\<close> (the leading underscore is not part of an Isabelle name).\<close>

definition normalize_mem_items :: "pyval \<Rightarrow> pyval list" where
  "normalize_mem_items obj =
     (case obj of
        PNone \<Rightarrow> []
      | PList xs \<Rightarrow> xs
      | PDict d \<Rightarrow>
          (case map_of d ''results'' of
             Some (PList rs) \<Rightarrow> rs
           | _ \<Rightarrow> [obj])
      | _ \<Rightarrow> [obj])"

text \<open>The body of the loop of \<open>format_memories\<close>: the line of one item, or the exception.\<close>

definition format_item :: "pyval \<Rightarrow> exn + string" where
  "format_item m =
     (case m of
        PDict d \<Rightarrow>
          (let memory_id = py_or (dict_get d ''id'') (py_or (dict_get d ''_id'') (PStr ''?''))
           in case (if truthy (dict_get d ''text'') then Inr (dict_get d ''text'')
                    else if truthy (dict_get d ''memory'') then Inr (dict_get d ''memory'')
                    else (case method_get (dict_get_default d ''data'' (PDict [])) ''memory'' of
                            Inl e \<Rightarrow> Inl e
                          | Inr t \<Rightarrow> Inr (py_or t (PStr (py_str m))))) of
                Inl e \<Rightarrow> Inl e
              | Inr text \<Rightarrow>
                 (let meta = py_or (dict_get d ''metadata'') (py_or (dict_get d ''meta'') (PDict []))
                  in case method_get meta ''source'' of
                       Inl e \<Rightarrow> Inl e
                     | Inr src \<Rightarrow>
                        (let source = py_or src (PStr [])
                         in case method_get meta ''important'' of
                              Inl e \<Rightarrow> Inl e
                            | Inr important \<Rightarrow>
                               (let flags = (if truthy source then [source] else [])
                                            @ (if truthy important then [PStr ''important''] else []);
                                    prefix = ''['' @ py_str memory_id @ '']''
                                in if flags \<noteq> []
                                   then (case str_join '', '' flags of
                                           Inl e \<Rightarrow> Inl e
                                         | Inr j \<Rightarrow>
                                             Inr ((prefix @ '' ('' @ j @ '')'') @ '' '' @ py_str text))
                                   else Inr (prefix @ '' '' @ py_str text)))))
      | _ \<Rightarrow> Inr (py_str m))"

fun format_lines :: "pyval list \<Rightarrow> string list \<Rightarrow> exn + string list" where
  "format_lines [] lines = Inr lines"
| "format_lines (m # ms) lines =
     (case format_item m of
        Inl e \<Rightarrow> Inl e
      | Inr l \<Rightarrow> format_lines ms (lines @ [l]))"

definition format_memories :: "pyval \<Rightarrow> int \<Rightarrow> exn + string" where
  "format_memories memories limit =
     (let items = normalize_mem_items memories
      in if items = [] then Inr ''No memories found.''
         else (case format_lines (slice_to items limit) [] of
                 Inl e \<Rightarrow> Inl e
               | Inr lines \<Rightarrow> Inr (join [CHR 0x0A] lines)))"

subsection \<open>The formatter as the specification words it\<close>








section \<open>Importance heuristic\<close>

text \<open>The local list \<open>keywords\<close> of \<open>should_store_memory\<close>.\<close>

definition keywords_list :: "string list" where
  "keywords_list =
     [''remember'', ''note this'', ''important'', ''permanent'', ''preference'',
      ''goal'', ''target'', ''schedule'', ''budget'']"

definition should_store_memory :: "string \<Rightarrow> string \<Rightarrow> bool" where
  "should_store_memory user_input answer =
     (let text = lower (user_input @ '' '' @ answer)
      in if list_ex (\<lambda>k. py_in k text) keywords_list then True
         else if length user_input > 140 then True
         else False)"

section \<open>Global state and collaborators\<close>

record message =
  role :: string
  content :: string

text \<open>
  The calls the assistant issues: the methods of \<open>mem_client\<close> with the keyword arguments
  the assistant passes, and \<open>oa_client.chat.completions.create\<close>.
\<close>

datatype call =
    Search string string
  | AddMemories "message list" string "(string \<times> pyval) list"
  | ListMemories string
  | GetMemory string
  | DeleteMemory string
  | DeleteAll string
  | ChatCompletionsCreate string "message list" rat

text \<open>
  The state: the global \<open>CURRENT_AGENT_ID\<close>, the calls issued so far (oldest first) and
  the lines printed so far.
\<close>

record state =
  CURRENT_AGENT_ID :: string
  calls :: "call list"
  printed :: "string list"

text \<open>
  The two clients are outside the program: each is a function from the calls issued before
  and the call made now to what the call returns or raises. \<open>oa_client\<close> yields
  \<open>resp.choices[0].message.content\<close>, a string.
\<close>

record collaborators =
  mem_client :: "call list \<Rightarrow> call \<Rightarrow> exn + pyval"
  oa_client :: "call list \<Rightarrow> call \<Rightarrow> exn + string"

definition mem_call :: "collaborators \<Rightarrow> call \<Rightarrow> state \<Rightarrow> (exn + pyval) \<times> state" where
  "mem_call env c s = (mem_client env (calls s) c, s\<lparr>calls := calls s @ [c]\<rparr>)"

definition oa_call :: "collaborators \<Rightarrow> call \<Rightarrow> state \<Rightarrow> (exn + string) \<times> state" where
  "oa_call env c s = (oa_client env (calls s) c, s\<lparr>calls := calls s @ [c]\<rparr>)"

definition print :: "string \<Rightarrow> state \<Rightarrow> state" where
  "print line s = s\<lparr>printed := printed s @ [line]\<rparr>"

definition SYSTEM_PROMPT :: string where
  "SYSTEM_PROMPT =
     ''You are Jose'' @ [CHR 0x27] @ ''s personal assistant.'' @ [CHR 0x0A]
     @ ''You have access to an external long-term memory system.'' @ [CHR 0x0A]
     @ ''Use the provided memories as context, but do NOT mention the memory system by name.''
     @ [CHR 0x0A]
     @ ''Always keep answers short, direct, and practical.'' @ [CHR 0x0A]"

section \<open>Core chat loop\<close>

definition chat_once :: "collaborators \<Rightarrow> string \<Rightarrow> state \<Rightarrow> (exn + string) \<times> state" where
  "chat_once env user_input s0 =
     (let (r1, s1) = mem_call env (Search user_input (CURRENT_AGENT_ID s0)) s0;
          (search_results, s2) =
            (case r1 of
               Inr v \<Rightarrow> (py_or v (PList []), s1)
             | Inl e \<Rightarrow> (PList [], print (''[mem0 search error] '' @ exn_str e) s1))
      in case format_memories search_results 8 of
           Inl e \<Rightarrow> (Inl e, s2)
         | Inr memory_block \<Rightarrow>
            (let messages =
                   [\<lparr>role = ''system'', content = SYSTEM_PROMPT\<rparr>,
                    \<lparr>role = ''system'', content = ''Current agent: '' @ CURRENT_AGENT_ID s2\<rparr>,
                    \<lparr>role = ''system'',
                     content = ''Relevant prior memories:'' @ [CHR 0x0A] @ memory_block\<rparr>,
                    \<lparr>role = ''user'', content = user_input\<rparr>];
                 (r3, s3) = oa_call env (ChatCompletionsCreate ''gpt-4.1-mini'' messages (4 / 10)) s2
             in case r3 of
                  Inl e \<Rightarrow> (Inl e, s3)
                | Inr answer \<Rightarrow>
                   (let important = should_store_memory user_input answer;
                        (r4, s4) =
                          mem_call env
                            (AddMemories
                               [\<lparr>role = ''user'', content = user_input\<rparr>,
                                \<lparr>role = ''assistant'', content = answer\<rparr>]
                               (CURRENT_AGENT_ID s3)
                               [(''source'', PStr ''local_assistant''),
                                (''important'', PBool important)])
                            s3
                    in case r4 of
                         Inl e \<Rightarrow> (Inr answer, print (''[mem0 add error] '' @ exn_str e) s4)
                       | Inr v \<Rightarrow> (Inr answer, s4))))"

section \<open>The /mem commands\<close>

definition mem_usage :: string where
  "mem_usage =
     ''Unknown /mem command. Use:'' @ [CHR 0x0A]
     @ ''/mem'' @ [CHR 0x0A]
     @ ''/mem search <query>'' @ [CHR 0x0A]
     @ ''/mem show <id>'' @ [CHR 0x0A]
     @ ''/mem delete <id>'' @ [CHR 0x0A]
     @ ''/mem clear''"

definition handle_mem_command :: "collaborators \<Rightarrow> string \<Rightarrow> state \<Rightarrow> (exn + string) \<times> state" where
  "handle_mem_command env cmd s =
     (let parts = split_max 2 (strip cmd)
      in if length parts = 1 then
           (case mem_call env (ListMemories (CURRENT_AGENT_ID s)) s of
              (Inl e, s') \<Rightarrow> (Inr (''[mem0 list error] '' @ exn_str e), s')
            | (Inr res, s') \<Rightarrow> (format_memories res 30, s'))
         else
           (let sub = (if length parts \<ge> 2 then lower (parts ! 1) else [])
            in if sub = ''search'' then
                 (if length parts = 2 then (Inr ''Usage: /mem search <query>'', s)
                  else (let query = parts ! 2
                        in case mem_call env (Search query (CURRENT_AGENT_ID s)) s of
                             (Inl e, s') \<Rightarrow> (Inr (''[mem0 search error] '' @ exn_str e), s')
                           | (Inr res, s') \<Rightarrow> (format_memories res 30, s')))
               else if sub = ''show'' then
                 (if length parts = 2 then (Inr ''Usage: /mem show <memory_id>'', s)
                  else (let memory_id = parts ! 2
                        in case mem_call env (GetMemory memory_id) s of
                             (Inl e, s') \<Rightarrow> (Inr (''[mem0 get error] '' @ exn_str e), s')
                           | (Inr m, s') \<Rightarrow> (format_memories m 1, s')))
               else if sub = ''delete'' then
                 (if length parts = 2 then (Inr ''Usage: /mem delete <memory_id>'', s)
                  else (let memory_id = parts ! 2
                        in case mem_call env (DeleteMemory memory_id) s of
                             (Inl e, s') \<Rightarrow> (Inr (''[mem0 delete error] '' @ exn_str e), s')
                           | (Inr res, s') \<Rightarrow>
                               (Inr (''Deleted memory '' @ memory_id @ '': '' @ py_str res), s')))
               else if sub = ''clear'' then
                 (case mem_call env (DeleteAll (CURRENT_AGENT_ID s)) s of
                    (Inl e, s') \<Rightarrow> (Inr (''[mem0 clear error] '' @ exn_str e), s')
                  | (Inr res, s') \<Rightarrow>
                      (Inr (''Cleared all memories for agent '' @ [CHR 0x27] @ CURRENT_AGENT_ID s'
                            @ [CHR 0x27] @ '': '' @ py_str res), s'))
               else (Inr mem_usage, s)))"

section \<open>The /agent commands\<close>

definition handle_agent_command :: "string \<Rightarrow> state \<Rightarrow> (exn + string) \<times> state" where
  "handle_agent_command cmd s =
     (let parts = split_max 1 (strip cmd)
      in if length parts = 1 then (Inr (''Current agent: '' @ CURRENT_AGENT_ID s), s)
         else if length parts < 2 then (Inl (IndexError ''list index out of range''), s)
         else (let new_agent = strip (parts ! 1)
               in if new_agent = [] then (Inr ''Usage: /agent <name>'', s)
                  else (let s' = s\<lparr>CURRENT_AGENT_ID := new_agent\<rparr>
                        in (Inr (''Switched agent to: '' @ CURRENT_AGENT_ID s'), s'))))"

section \<open>The normalizer\<close>

text \<open>
  Claim C4. \<open>_normalize_mem_items\<close> maps \<open>None\<close> to the empty list, a list to itself, a
  dict whose key \<open>results\<close> holds a list to that list, any other dict to the one-element
  list holding the dict, and any other value that is not \<open>None\<close> to the one-element list
  holding the value.
\<close>

theorem normalize_mem_items_cases:
  "normalize_mem_items PNone = []
   \<and> normalize_mem_items (PList xs) = xs
   \<and> (map_of d ''results'' = Some (PList rs) \<longrightarrow> normalize_mem_items (PDict d) = rs)
   \<and> ((\<forall>rs. map_of d' ''results'' \<noteq> Some (PList rs))
        \<longrightarrow> normalize_mem_items (PDict d') = [PDict d'])
   \<and> (obj \<noteq> PNone \<and> \<not> is_list obj \<and> \<not> is_dict obj \<longrightarrow> normalize_mem_items obj = [obj])"
proof (intro conjI impI)
  show "normalize_mem_items PNone = []"
    by (simp add: normalize_mem_items_def)
  show "normalize_mem_items (PList xs) = xs"
    by (simp add: normalize_mem_items_def)
  show "normalize_mem_items (PDict d) = rs" if "map_of d ''results'' = Some (PList rs)"
    using that by (simp add: normalize_mem_items_def)
  show "normalize_mem_items (PDict d') = [PDict d']"
    if "\<forall>rs. map_of d' ''results'' \<noteq> Some (PList rs)"
    using that by (auto simp add: normalize_mem_items_def split: option.splits pyval.splits)
  show "normalize_mem_items obj = [obj]"
    if "obj \<noteq> PNone \<and> \<not> is_list obj \<and> \<not> is_dict obj"
    using that by (cases obj) (simp_all add: normalize_mem_items_def)
qed

theorem normalize_mem_items_cases_witness:
  "map_of [(''results'', PList [PInt 7])] ''results'' = Some (PList [PInt 7])
   \<and> normalize_mem_items (PDict [(''results'', PList [PInt 7])]) = [PInt 7]
   \<and> (\<forall>rs. map_of [(''a'', PInt 1)] ''results'' \<noteq> Some (PList rs))
   \<and> normalize_mem_items (PDict [(''a'', PInt 1)]) = [PDict [(''a'', PInt 1)]]
   \<and> PInt 42 \<noteq> PNone \<and> \<not> is_list (PInt 42) \<and> \<not> is_dict (PInt 42)
   \<and> normalize_mem_items (PInt 42) = [PInt 42]
   \<and> normalize_mem_items (PList [PInt 1, PInt 2]) = [PInt 1, PInt 2]"
proof -
  have h1: "map_of [(''results'', PList [PInt 7])] ''results'' = Some (PList [PInt 7])"
    by simp
  have h2: "\<forall>rs. map_of [(''a'', PInt 1)] ''results'' \<noteq> Some (PList rs)"
    by simp
  have h3: "PInt 42 \<noteq> PNone \<and> \<not> is_list (PInt 42) \<and> \<not> is_dict (PInt 42)"
    by simp
  note c = normalize_mem_items_cases
    [of "[PInt 1, PInt 2]" "[(''results'', PList [PInt 7])]" "[PInt 7]" "[(''a'', PInt 1)]" "PInt 42"]
  from c h1 have r1: "normalize_mem_items (PDict [(''results'', PList [PInt 7])]) = [PInt 7]"
    by blast
  from c h2 have r2: "normalize_mem_items (PDict [(''a'', PInt 1)]) = [PDict [(''a'', PInt 1)]]"
    by blast
  from c h3 have r3: "normalize_mem_items (PInt 42) = [PInt 42]"
    by blast
  from c have r4: "normalize_mem_items (PList [PInt 1, PInt 2]) = [PInt 1, PInt 2]"
    by blast
  from h1 h2 h3 r1 r2 r3 r4 show ?thesis by blast
qed

section \<open>Facts about the string operations\<close>

lemma of_char_less_256: "(of_char c :: nat) < 256"
  by (cases c) simp

lemma isspace_lower_char [simp]: "isspace (lower_char c) = isspace c"
proof -
  have "(of_char c :: nat) < 256" by (rule of_char_less_256)
  then show ?thesis
    by (auto simp add: isspace_def lower_char_def Let_def)
qed

lemma rstrip_Nil [simp]: "rstrip [] = []"
  by (simp add: rstrip_def)

lemma rstrip_eq_Nil_iff: "rstrip x = [] \<longleftrightarrow> (\<forall>c\<in>set x. isspace c)"
  by (auto simp add: rstrip_def dropWhile_eq_Nil_conv)

lemma rstrip_append_keep: "rstrip b \<noteq> [] \<Longrightarrow> rstrip (a @ b) = a @ rstrip b"
proof -
  assume "rstrip b \<noteq> []"
  then obtain c where c: "c \<in> set (rev b)" "\<not> isspace c"
    by (auto simp add: rstrip_eq_Nil_iff)
  then have "dropWhile isspace (rev b @ rev a) = dropWhile isspace (rev b) @ rev a"
    by (rule dropWhile_append1)
  then show ?thesis by (simp add: rstrip_def)
qed

lemma rstrip_append_drop: "\<forall>c\<in>set b. isspace c \<Longrightarrow> rstrip (a @ b) = rstrip a"
proof -
  assume "\<forall>c\<in>set b. isspace c"
  then have "dropWhile isspace (rev b @ rev a) = dropWhile isspace (rev a)"
    by (intro dropWhile_append2) simp
  then show ?thesis by (simp add: rstrip_def)
qed

lemma rstrip_id: "s = [] \<or> \<not> isspace (last s) \<Longrightarrow> rstrip s = s"
proof (cases s rule: rev_cases)
  case Nil
  then show ?thesis by simp
next
  case (snoc ys y)
  assume "s = [] \<or> \<not> isspace (last s)"
  with snoc show ?thesis by (simp add: rstrip_def)
qed

lemma rstrip_token_append:
  assumes "t \<noteq> []" and "\<not> isspace (last t)"
  shows "rstrip (t @ x) = t @ rstrip x"
proof (cases "rstrip x = []")
  case True
  then have "\<forall>c\<in>set x. isspace c" by (simp add: rstrip_eq_Nil_iff)
  then have "rstrip (t @ x) = rstrip t" by (rule rstrip_append_drop)
  with assms True show ?thesis by (simp add: rstrip_id)
next
  case False
  then show ?thesis by (rule rstrip_append_keep)
qed

lemma rstrip_decomp: "\<exists>w. s = rstrip s @ w \<and> (\<forall>c\<in>set w. isspace c)"
proof -
  have "rev (rev s) = rev (takeWhile isspace (rev s) @ dropWhile isspace (rev s))"
    by (simp only: takeWhile_dropWhile_id)
  then have "s = rstrip s @ rev (takeWhile isspace (rev s))"
    by (simp only: rev_rev_ident rev_append rstrip_def)
  moreover have "\<forall>c\<in>set (rev (takeWhile isspace (rev s))). isspace c"
    by (auto dest: set_takeWhileD)
  ultimately show ?thesis by blast
qed

lemma hd_rstrip: "rstrip s \<noteq> [] \<Longrightarrow> hd (rstrip s) = hd s"
proof -
  assume ne: "rstrip s \<noteq> []"
  obtain w where "s = rstrip s @ w" using rstrip_decomp by blast
  then have "hd s = hd (rstrip s @ w)" by simp
  with ne show ?thesis by simp
qed

lemma last_rstrip: "rstrip s \<noteq> [] \<Longrightarrow> \<not> isspace (last (rstrip s))"
proof -
  assume ne: "rstrip s \<noteq> []"
  then have d: "dropWhile isspace (rev s) \<noteq> []" by (simp add: rstrip_def)
  then have "\<not> isspace (hd (dropWhile isspace (rev s)))"
    using hd_dropWhile by blast
  with d show ?thesis by (simp add: rstrip_def last_rev)
qed

lemma lstrip_id: "s = [] \<or> \<not> isspace (hd s) \<Longrightarrow> lstrip s = s"
  by (cases s) (auto simp add: lstrip_def)

lemma lstrip_ws_append: "\<forall>c\<in>set w. isspace c \<Longrightarrow> lstrip (w @ s) = lstrip s"
  by (simp add: lstrip_def dropWhile_append2)

lemma strip_token_append:
  assumes "t \<noteq> []" and "\<not> isspace (hd t)" and "\<not> isspace (last t)"
  shows "strip (t @ x) = t @ rstrip x"
proof -
  have "rstrip (t @ x) = t @ rstrip x" using assms by (simp add: rstrip_token_append)
  moreover have "lstrip (t @ rstrip x) = t @ rstrip x"
    using assms by (intro lstrip_id) simp
  ultimately show ?thesis by (simp add: strip_def)
qed

lemma strip_strip: "strip (strip s) = strip s"
proof (cases "strip s = []")
  case True
  have "strip [] = []" by (simp add: strip_def lstrip_def)
  with True show ?thesis by simp
next
  case False
  let ?t = "strip s"
  have t: "?t = dropWhile isspace (rstrip s)" by (simp add: strip_def lstrip_def)
  with False have rne: "rstrip s \<noteq> []" by auto
  have "last ?t = last (rstrip s)"
    using False t by (metis last_appendR takeWhile_dropWhile_id)
  then have "\<not> isspace (last ?t)" using rne by (simp add: last_rstrip)
  then have "rstrip ?t = ?t" by (simp add: rstrip_id)
  moreover have "lstrip ?t = ?t" by (simp add: t lstrip_def)
  ultimately show ?thesis by (simp add: strip_def)
qed

lemma split_max_Nil [simp]: "split_max k [] = []"
  by (simp add: split_max.simps)

lemma split_max_ws: "\<forall>c\<in>set w. isspace c \<Longrightarrow> split_max k (w @ s) = split_max k s"
  by (subst split_max.simps, subst (2) split_max.simps) (simp add: dropWhile_append2)

lemma split_max_0: "split_max 0 s = (if lstrip s = [] then [] else [lstrip s])"
  by (simp add: split_max.simps lstrip_def Let_def)

lemma split_max_token:
  assumes "t \<noteq> []" and "\<forall>c\<in>set t. \<not> isspace c" and "rest = [] \<or> isspace (hd rest)"
  shows "split_max (Suc k) (t @ rest) = t # split_max k rest"
proof -
  from assms(1,2) have h: "\<not> isspace (hd t)" by (cases t) auto
  with assms(1) have d: "dropWhile isspace (t @ rest) = t @ rest"
    by (cases t) auto
  have tw: "takeWhile (\<lambda>c. \<not> isspace c) rest = []"
    using assms(3) by (cases rest) auto
  have dw: "dropWhile (\<lambda>c. \<not> isspace c) rest = rest"
    using assms(3) by (cases rest) auto
  have t1: "takeWhile (\<lambda>c. \<not> isspace c) (t @ rest) = t"
    using assms(2) tw by (simp add: takeWhile_append2)
  have t2: "dropWhile (\<lambda>c. \<not> isspace c) (t @ rest) = rest"
    using assms(2) dw by (simp add: dropWhile_append2)
  show ?thesis
    using assms(1) by (subst split_max.simps) (simp add: d t1 t2 Let_def)
qed

lemma length_split_max: "length (split_max k s) \<le> Suc k"
proof (induction k s rule: split_max.induct)
  case (1 k s)
  show ?case
  proof (cases "dropWhile isspace s = [] \<or> k = 0")
    case True
    then show ?thesis by (subst split_max.simps) (auto simp add: Let_def)
  next
    case False
    then have "length (split_max (k - 1) (dropWhile (\<lambda>c. \<not> isspace c) (dropWhile isspace s))) \<le> Suc (k - 1)"
      using "1.IH" by simp
    with False show ?thesis by (subst split_max.simps) (auto simp add: Let_def)
  qed
qed

section \<open>The importance heuristic\<close>

lemma py_in_iff_sublist: "py_in k t = sublist k t"
  by (induction t) (simp_all add: sublist_Cons_right)

lemma py_in_iff: "py_in k t \<longleftrightarrow> (\<exists>p q. t = p @ k @ q)"
  by (simp add: py_in_iff_sublist sublist_def)

lemma lower_append [simp]: "lower (s @ t) = lower s @ lower t"
  by (simp add: lower_def)

lemma lower_Nil [simp]: "lower [] = []"
  by (simp add: lower_def)

lemma lower_Cons: "lower (c # s) = lower_char c # lower s"
  by (simp add: lower_def)

lemma lower_char_space [simp]: "lower_char (CHR '' '') = CHR '' ''"
  by (simp add: lower_char_def)

text \<open>
  Claim C3. \<open>should_store_memory\<close> is true exactly when one of the nine keywords occurs as
  a contiguous substring of the lower-cased \<open>user_input + " " + answer\<close>, or
  \<open>user_input\<close> has more than 140 characters. It is a function of its two arguments
  alone. Case is ignored by the keyword test, which sees the arguments only through the
  lower-cased text; the length test counts the characters of \<open>user_input\<close> as given. So
  two pairs of arguments whose texts are equal after lower-casing, and whose user inputs
  are on the same side of the 140-character threshold, get the same result.
\<close>

theorem should_store_memory_iff:
  "(should_store_memory user_input answer \<longleftrightarrow>
      (\<exists>k \<in> {''remember'', ''note this'', ''important'', ''permanent'', ''preference'',
              ''goal'', ''target'', ''schedule'', ''budget''}.
         \<exists>p q. lower (user_input @ '' '' @ answer) = p @ k @ q)
      \<or> 140 < length user_input)
   \<and> (lower (user_input @ '' '' @ answer) = lower (u' @ '' '' @ a')
        \<and> (140 < length user_input \<longleftrightarrow> 140 < length u')
        \<longrightarrow> should_store_memory user_input answer = should_store_memory u' a')"
proof (intro conjI impI)
  show "should_store_memory user_input answer \<longleftrightarrow>
      (\<exists>k \<in> {''remember'', ''note this'', ''important'', ''permanent'', ''preference'',
              ''goal'', ''target'', ''schedule'', ''budget''}.
         \<exists>p q. lower (user_input @ '' '' @ answer) = p @ k @ q)
      \<or> 140 < length user_input"
    unfolding should_store_memory_def Let_def keywords_list_def list_ex_iff py_in_iff
    by simp
next
  assume a: "lower (user_input @ '' '' @ answer) = lower (u' @ '' '' @ a')
        \<and> (140 < length user_input \<longleftrightarrow> 140 < length u')"
  have "should_store_memory user_input answer
      = (list_ex (\<lambda>k. py_in k (lower (user_input @ '' '' @ answer))) keywords_list
         \<or> 140 < length user_input)"
    by (simp add: should_store_memory_def Let_def del: lower_append)
  also have "\<dots> = (list_ex (\<lambda>k. py_in k (lower (u' @ '' '' @ a'))) keywords_list
         \<or> 140 < length u')"
    using a by (simp only:)
  also have "\<dots> = should_store_memory u' a'"
    by (simp add: should_store_memory_def Let_def del: lower_append)
  finally show "should_store_memory user_input answer = should_store_memory u' a'" .
qed

theorem should_store_memory_iff_witness:
  "should_store_memory ''REMEMBER this'' ''ok'' = should_store_memory ''remember THIS'' ''OK''
   \<and> should_store_memory ''remember THIS'' ''OK''
   \<and> \<not> should_store_memory ''hi'' ''ok''"
proof -
  have h: "lower (''REMEMBER this'' @ '' '' @ ''ok'') = lower (''remember THIS'' @ '' '' @ ''OK'')
      \<and> (140 < length ''REMEMBER this'' \<longleftrightarrow> 140 < length ''remember THIS'')"
    by code_simp
  have e: "lower (''remember THIS'' @ '' '' @ ''OK'') = [] @ ''remember'' @ '' this ok''"
    by code_simp
  note t = should_store_memory_iff
    [of "''REMEMBER this''" "''ok''" "''remember THIS''" "''OK''"]
  from t h have r1: "should_store_memory ''REMEMBER this'' ''ok''
      = should_store_memory ''remember THIS'' ''OK''"
    by blast
  have r2: "should_store_memory ''remember THIS'' ''OK''"
    using should_store_memory_iff
      [of "''remember THIS''" "''OK''" "''remember THIS''" "''OK''"] e
    by blast
  have r3: "\<not> should_store_memory ''hi'' ''ok''"
    by code_simp
  from r1 r2 r3 show ?thesis by blast
qed

section \<open>Command parsing\<close>

lemma token_agent: "''/agent'' \<noteq> [] \<and> (\<forall>c\<in>set ''/agent''. \<not> isspace c)"
  by (simp add: isspace_def)

lemma token_mem: "''/mem'' \<noteq> [] \<and> (\<forall>c\<in>set ''/mem''. \<not> isspace c)"
  by (simp add: isspace_def)

lemma token_hd_last:
  "t \<noteq> [] \<Longrightarrow> \<forall>c\<in>set t. \<not> isspace c \<Longrightarrow> \<not> isspace (hd t) \<and> \<not> isspace (last t)"
  by simp

lemma ws_hd: "w \<noteq> [] \<Longrightarrow> \<forall>c\<in>set w. isspace c \<Longrightarrow> isspace (hd (w @ x))"
  by (cases w) auto

lemma rstrip_hd_ws:
  assumes "x = [] \<or> isspace (hd x)"
  shows "rstrip x = [] \<or> isspace (hd (rstrip x))"
  using assms hd_rstrip [of x] by (cases "rstrip x = []") auto

text \<open>The tokens of a command line made of a first token and a tail that starts with whitespace.\<close>

lemma split_strip_token:
  assumes "t \<noteq> []" and "\<forall>c\<in>set t. \<not> isspace c" and "x = [] \<or> isspace (hd x)"
  shows "split_max (Suc k) (strip (t @ x)) = t # split_max k (rstrip x)"
proof -
  have "strip (t @ x) = t @ rstrip x"
    using assms(1,2) by (intro strip_token_append) simp_all
  moreover have "rstrip x = [] \<or> isspace (hd (rstrip x))"
    using assms(3) by (rule rstrip_hd_ws)
  ultimately show ?thesis
    using assms(1,2) by (simp add: split_max_token)
qed

lemma parts_agent_blank:
  assumes "\<forall>c\<in>set w. isspace c"
  shows "split_max 1 (strip (''/agent'' @ w)) = [''/agent'']"
proof -
  have "w = [] \<or> isspace (hd w)" using assms by (cases w) auto
  then have "split_max (Suc 0) (strip (''/agent'' @ w)) = ''/agent'' # split_max 0 (rstrip w)"
    using token_agent by (intro split_strip_token) simp_all
  moreover have "rstrip w = []" using assms by (simp add: rstrip_eq_Nil_iff)
  ultimately show ?thesis by simp
qed

lemma parts_agent_name:
  assumes "w \<noteq> []" and "\<forall>c\<in>set w. isspace c" and "strip name \<noteq> []"
  shows "split_max 1 (strip (''/agent'' @ w @ name)) = [''/agent'', strip name]"
proof -
  have "isspace (hd (w @ name))" using assms(1,2) by (rule ws_hd)
  then have "split_max (Suc 0) (strip (''/agent'' @ w @ name))
      = ''/agent'' # split_max 0 (rstrip (w @ name))"
    using token_agent by (intro split_strip_token) simp_all
  moreover have "rstrip name \<noteq> []"
    using assms(3) by (auto simp add: strip_def lstrip_def)
  then have "rstrip (w @ name) = w @ rstrip name" by (rule rstrip_append_keep)
  moreover have "lstrip (w @ rstrip name) = strip name"
    using assms(2) by (simp add: lstrip_ws_append strip_def)
  ultimately show ?thesis using assms(3) by (simp add: split_max_0)
qed

text \<open>The second of two tokens of a stripped line is never blank.\<close>

lemma split_max_1_second:
  assumes "split_max 1 (strip cmd) = [a, b]"
  shows "strip b = b \<and> b \<noteq> []"
proof -
  let ?s = "strip cmd"
  let ?r = "dropWhile isspace ?s"
  let ?u = "dropWhile (\<lambda>c. \<not> isspace c) ?r"
  from assms have rne: "?r \<noteq> []"
    by (subst (asm) split_max.simps) (auto simp add: Let_def split: if_splits)
  with assms have "split_max 0 ?u = [b]"
    by (subst (asm) split_max.simps) (auto simp add: Let_def split: if_splits)
  then have b: "b = lstrip ?u" and bne: "lstrip ?u \<noteq> []"
    by (auto simp add: split_max_0 split: if_splits)
  have sne: "?s \<noteq> []" using rne by auto
  have suf: "suffix b ?s"
    unfolding b lstrip_def
    by (meson suffix_dropWhile suffix_order.trans)
  from bne b have bne': "b \<noteq> []" by simp
  with suf have "last b = last ?s"
    by (auto simp add: suffix_def)
  moreover have "\<not> isspace (last ?s)"
  proof -
    have s: "?s = dropWhile isspace (rstrip cmd)" by (simp add: strip_def lstrip_def)
    with sne have rn: "rstrip cmd \<noteq> []" by auto
    have "last ?s = last (rstrip cmd)"
      using sne s by (metis last_appendR takeWhile_dropWhile_id)
    with rn show ?thesis by (simp add: last_rstrip)
  qed
  ultimately have "rstrip b = b" by (simp add: rstrip_id)
  moreover have "lstrip b = b" by (simp add: b lstrip_def)
  ultimately show ?thesis using bne' by (simp add: strip_def)
qed

lemma usage_neq:
  "''Usage: /agent <name>'' \<noteq> ''Current agent: '' @ x"
  "''Usage: /agent <name>'' \<noteq> ''Switched agent to: '' @ x"
  by simp_all

text \<open>
  Claim C7, as amended. \<open>/agent\<close> followed by nothing or by whitespace only returns the
  report \<open>Current agent: <id>\<close> and leaves the state as it is; \<open>/agent\<close>, whitespace
  and a name that is not blank sets \<open>CURRENT_AGENT_ID\<close> to the trimmed name and returns
  \<open>Switched agent to: <name>\<close>. No command line at all makes \<open>handle_agent_command\<close>
  return the usage message: the line is stripped before it is split, so a second token
  is never blank.
\<close>

theorem handle_agent_command_cases:
  "((\<forall>c\<in>set w. isspace c) \<longrightarrow>
      handle_agent_command (''/agent'' @ w) s = (Inr (''Current agent: '' @ CURRENT_AGENT_ID s), s))
   \<and> (w' \<noteq> [] \<and> (\<forall>c\<in>set w'. isspace c) \<and> strip name \<noteq> [] \<longrightarrow>
      handle_agent_command (''/agent'' @ w' @ name) s
        = (Inr (''Switched agent to: '' @ strip name), s\<lparr>CURRENT_AGENT_ID := strip name\<rparr>))
   \<and> fst (handle_agent_command cmd s) \<noteq> Inr ''Usage: /agent <name>''"
proof (intro conjI impI)
  assume "\<forall>c\<in>set w. isspace c"
  then have "split_max 1 (strip (''/agent'' @ w)) = [''/agent'']" by (rule parts_agent_blank)
  then show "handle_agent_command (''/agent'' @ w) s
      = (Inr (''Current agent: '' @ CURRENT_AGENT_ID s), s)"
    by (simp add: handle_agent_command_def)
next
  assume a: "w' \<noteq> [] \<and> (\<forall>c\<in>set w'. isspace c) \<and> strip name \<noteq> []"
  then have "split_max 1 (strip (''/agent'' @ w' @ name)) = [''/agent'', strip name]"
    using parts_agent_name [of w' name] by blast
  with a show "handle_agent_command (''/agent'' @ w' @ name) s
      = (Inr (''Switched agent to: '' @ strip name), s\<lparr>CURRENT_AGENT_ID := strip name\<rparr>)"
    by (simp add: handle_agent_command_def strip_strip Let_def)
next
  have len: "length (split_max 1 (strip cmd)) \<le> 2"
    using length_split_max [of 1 "strip cmd"] by simp
  show "fst (handle_agent_command cmd s) \<noteq> Inr ''Usage: /agent <name>''"
  proof (cases "split_max 1 (strip cmd)")
    case Nil
    then show ?thesis by (simp add: handle_agent_command_def)
  next
    case (Cons a ps)
    note outer = Cons
    show ?thesis
    proof (cases ps)
      case Nil
      with outer show ?thesis by (simp add: handle_agent_command_def)
    next
      case (Cons b qs)
      with outer len have p: "split_max 1 (strip cmd) = [a, b]" by simp
      then have "strip b = b \<and> b \<noteq> []" by (rule split_max_1_second)
      with p show ?thesis by (simp add: handle_agent_command_def Let_def)
    qed
  qed
qed


lemma lower_char_idem [simp]: "lower_char (lower_char c) = lower_char c"
proof -
  have "(of_char c :: nat) < 256" by (rule of_char_less_256)
  then show ?thesis
    by (auto simp add: lower_char_def Let_def)
qed

lemma lower_lower [simp]: "lower (lower s) = lower s"
  by (simp add: lower_def)

lemma lower_token:
  "(\<forall>c\<in>set (lower t). \<not> isspace c) \<longleftrightarrow> (\<forall>c\<in>set t. \<not> isspace c)"
  by (simp add: lower_def)

lemma lower_eq_Nil [simp]: "lower t = [] \<longleftrightarrow> t = []"
  by (simp add: lower_def)

lemma parts_mem:
  assumes "w1 \<noteq> []" and "\<forall>c\<in>set w1. isspace c"
    and "sub \<noteq> []" and "\<forall>c\<in>set sub. \<not> isspace c"
    and "rest = [] \<or> isspace (hd rest)"
  shows "split_max 2 (strip (''/mem'' @ w1 @ sub @ rest))
           = ''/mem'' # sub # split_max 0 (rstrip rest)"
proof -
  have "isspace (hd (w1 @ sub @ rest))" using assms(1,2) by (rule ws_hd)
  then have "split_max (Suc 1) (strip (''/mem'' @ w1 @ sub @ rest))
      = ''/mem'' # split_max 1 (rstrip (w1 @ sub @ rest))"
    using token_mem by (intro split_strip_token) simp_all
  moreover have r1: "rstrip (sub @ rest) = sub @ rstrip rest"
    using assms(3,4) by (intro rstrip_token_append) simp_all
  then have "rstrip (w1 @ sub @ rest) = w1 @ sub @ rstrip rest"
    using assms(3) rstrip_append_keep [of "sub @ rest" w1] by simp
  moreover have "split_max 1 (w1 @ sub @ rstrip rest) = split_max 1 (sub @ rstrip rest)"
    using assms(2) by (rule split_max_ws)
  moreover have "split_max (Suc 0) (sub @ rstrip rest) = sub # split_max 0 (rstrip rest)"
    using assms(3,4) rstrip_hd_ws [OF assms(5)] by (intro split_max_token) simp_all
  ultimately show ?thesis by (simp add: numeral_2_eq_2)
qed

lemma handle_mem_command_parts_lower:
  assumes "split_max 2 (strip c1) = m # sub # ps"
    and "split_max 2 (strip c2) = m # lower sub # ps"
  shows "handle_mem_command env c1 s = handle_mem_command env c2 s"
  using assms by (simp add: handle_mem_command_def Let_def)

lemma search_token: "lower sub = ''search'' \<Longrightarrow> sub \<noteq> [] \<and> (\<forall>c\<in>set sub. \<not> isspace c)"
proof -
  assume a: "lower sub = ''search''"
  have "\<forall>c\<in>set (lower sub). \<not> isspace c"
    unfolding a by (simp add: isspace_def)
  then have "\<forall>c\<in>set sub. \<not> isspace c" by (simp only: lower_token)
  moreover from a have "sub \<noteq> []" by auto
  ultimately show ?thesis by simp
qed

lemma strip_decomp:
  "\<exists>a b. q = a @ strip q @ b \<and> (\<forall>c\<in>set a. isspace c) \<and> (\<forall>c\<in>set b. isspace c)"
proof -
  obtain b where b: "q = rstrip q @ b" "\<forall>c\<in>set b. isspace c"
    using rstrip_decomp by blast
  have "rstrip q = takeWhile isspace (rstrip q) @ strip q"
    by (simp add: strip_def lstrip_def)
  with b(1) have "q = takeWhile isspace (rstrip q) @ strip q @ b"
    by (metis append_assoc)
  moreover have "\<forall>c\<in>set (takeWhile isspace (rstrip q)). isspace c"
    by (auto dest: set_takeWhileD)
  ultimately show ?thesis using b(2) by blast
qed

text \<open>
  Claim C9, as amended. \<open>/mem search\<close> with no query (the subcommand in any
  capitalisation, any amount of whitespace around it) returns
  \<open>Usage: /mem search <query>\<close> and leaves the state, hence the list of collaborator
  calls, unchanged. When something other than whitespace follows the subcommand, exactly
  one call is issued, the search for the current agent, and its query is the remainder of
  the line with the whitespace at its two ends removed and everything between kept, inner
  whitespace included. The line is split into at most three tokens.
\<close>

theorem handle_mem_command_search:
  "(lower sub = ''search'' \<and> w1 \<noteq> [] \<and> (\<forall>c\<in>set w1. isspace c) \<and> (\<forall>c\<in>set w2. isspace c)
      \<longrightarrow> handle_mem_command env (''/mem'' @ w1 @ sub @ w2) s
            = (Inr ''Usage: /mem search <query>'', s))
   \<and> (lower sub = ''search'' \<and> w1 \<noteq> [] \<and> (\<forall>c\<in>set w1. isspace c)
        \<and> w3 \<noteq> [] \<and> (\<forall>c\<in>set w3. isspace c) \<and> strip q \<noteq> []
      \<longrightarrow> handle_mem_command env (''/mem'' @ w1 @ sub @ w3 @ q) s
            = (case mem_client env (calls s) (Search (strip q) (CURRENT_AGENT_ID s)) of
                 Inl e \<Rightarrow> Inr (''[mem0 search error] '' @ exn_str e)
               | Inr res \<Rightarrow> format_memories res 30,
               s\<lparr>calls := calls s @ [Search (strip q) (CURRENT_AGENT_ID s)]\<rparr>))
   \<and> (\<exists>a b. q = a @ strip q @ b \<and> (\<forall>c\<in>set a. isspace c) \<and> (\<forall>c\<in>set b. isspace c))
   \<and> (q \<noteq> [] \<and> \<not> isspace (hd q) \<and> \<not> isspace (last q) \<longrightarrow> strip q = q)
   \<and> length (split_max 2 (strip cmd)) \<le> 3"
proof (intro conjI impI)
  assume a: "lower sub = ''search'' \<and> w1 \<noteq> [] \<and> (\<forall>c\<in>set w1. isspace c) \<and> (\<forall>c\<in>set w2. isspace c)"
  then have tok: "sub \<noteq> [] \<and> (\<forall>c\<in>set sub. \<not> isspace c)"
    using search_token [of sub] by blast
  from a have "w2 = [] \<or> isspace (hd w2)" by (cases w2) auto
  with a tok have "split_max 2 (strip (''/mem'' @ w1 @ sub @ w2))
      = ''/mem'' # sub # split_max 0 (rstrip w2)"
    by (intro parts_mem) simp_all
  moreover from a have "rstrip w2 = []" by (simp add: rstrip_eq_Nil_iff)
  ultimately have "split_max 2 (strip (''/mem'' @ w1 @ sub @ w2)) = [''/mem'', sub]" by simp
  with a show "handle_mem_command env (''/mem'' @ w1 @ sub @ w2) s
      = (Inr ''Usage: /mem search <query>'', s)"
    by (simp add: handle_mem_command_def Let_def)
next
  assume a: "lower sub = ''search'' \<and> w1 \<noteq> [] \<and> (\<forall>c\<in>set w1. isspace c)
        \<and> w3 \<noteq> [] \<and> (\<forall>c\<in>set w3. isspace c) \<and> strip q \<noteq> []"
  then have tok: "sub \<noteq> [] \<and> (\<forall>c\<in>set sub. \<not> isspace c)"
    using search_token [of sub] by blast
  from a have "isspace (hd (w3 @ q))" by (intro ws_hd) simp_all
  with a tok have "split_max 2 (strip (''/mem'' @ w1 @ sub @ w3 @ q))
      = ''/mem'' # sub # split_max 0 (rstrip (w3 @ q))"
    by (intro parts_mem) simp_all
  moreover from a have "rstrip q \<noteq> []"
    by (auto simp add: strip_def lstrip_def)
  then have "rstrip (w3 @ q) = w3 @ rstrip q" by (rule rstrip_append_keep)
  moreover from a have "lstrip (w3 @ rstrip q) = strip q"
    by (simp add: lstrip_ws_append strip_def)
  ultimately have "split_max 2 (strip (''/mem'' @ w1 @ sub @ w3 @ q)) = [''/mem'', sub, strip q]"
    using a by (simp add: split_max_0)
  with a show "handle_mem_command env (''/mem'' @ w1 @ sub @ w3 @ q) s
            = (case mem_client env (calls s) (Search (strip q) (CURRENT_AGENT_ID s)) of
                 Inl e \<Rightarrow> Inr (''[mem0 search error] '' @ exn_str e)
               | Inr res \<Rightarrow> format_memories res 30,
               s\<lparr>calls := calls s @ [Search (strip q) (CURRENT_AGENT_ID s)]\<rparr>)"
    by (simp add: handle_mem_command_def mem_call_def Let_def split: sum.splits)
next
  show "\<exists>a b. q = a @ strip q @ b \<and> (\<forall>c\<in>set a. isspace c) \<and> (\<forall>c\<in>set b. isspace c)"
    by (rule strip_decomp)
next
  assume "q \<noteq> [] \<and> \<not> isspace (hd q) \<and> \<not> isspace (last q)"
  then show "strip q = q"
    by (simp add: strip_def rstrip_id lstrip_id)
next
  show "length (split_max 2 (strip cmd)) \<le> 3"
    using length_split_max [of 2 "strip cmd"] by simp
qed

text \<open>
  Claim C10. The subcommand token of a \<open>/mem\<close> line is lower-cased before it is matched:
  the line with the subcommand \<open>sub\<close> and the line with \<open>lower sub\<close> in its place give
  the same result and the same state, whatever follows the subcommand.
\<close>

theorem handle_mem_command_case_insensitive:
  "w1 \<noteq> [] \<and> (\<forall>c\<in>set w1. isspace c) \<and> (\<forall>c\<in>set sub. \<not> isspace c) \<and> (rest = [] \<or> isspace (hd rest))
   \<longrightarrow> handle_mem_command env (''/mem'' @ w1 @ sub @ rest) s
       = handle_mem_command env (''/mem'' @ w1 @ lower sub @ rest) s"
proof
  assume a: "w1 \<noteq> [] \<and> (\<forall>c\<in>set w1. isspace c) \<and> (\<forall>c\<in>set sub. \<not> isspace c)
    \<and> (rest = [] \<or> isspace (hd rest))"
  show "handle_mem_command env (''/mem'' @ w1 @ sub @ rest) s
       = handle_mem_command env (''/mem'' @ w1 @ lower sub @ rest) s"
  proof (cases "sub = []")
    case True
    then show ?thesis by simp
  next
    case False
    with a have p1: "split_max 2 (strip (''/mem'' @ w1 @ sub @ rest))
        = ''/mem'' # sub # split_max 0 (rstrip rest)"
      by (intro parts_mem) simp_all
    from a False have "split_max 2 (strip (''/mem'' @ w1 @ lower sub @ rest))
        = ''/mem'' # lower sub # split_max 0 (rstrip rest)"
      by (intro parts_mem) (simp_all add: lower_token)
    with p1 show ?thesis by (rule handle_mem_command_parts_lower)
  qed
qed

text \<open>
  Claim C7 as stated fails: \<open>/agent\<close> followed by blanks gets the report of the current
  agent, not the usage message.
\<close>

theorem handle_agent_command_blank_counterexample:
  "handle_agent_command ''/agent   '' \<lparr>CURRENT_AGENT_ID = ''vera'', calls = [], printed = []\<rparr>
     = (Inr ''Current agent: vera'', \<lparr>CURRENT_AGENT_ID = ''vera'', calls = [], printed = []\<rparr>)
   \<and> fst (handle_agent_command ''/agent   ''
            \<lparr>CURRENT_AGENT_ID = ''vera'', calls = [], printed = []\<rparr>)
       \<noteq> Inr ''Usage: /agent <name>''"
proof -
  have "split_max 1 (strip ''/agent   '') = [''/agent'']"
    using parts_agent_blank [of "''   ''"] by (simp add: isspace_def)
  then show ?thesis by (simp add: handle_agent_command_def)
qed

theorem handle_agent_command_cases_witness:
  "handle_agent_command ''/agent'' \<lparr>CURRENT_AGENT_ID = ''vera'', calls = [], printed = []\<rparr>
     = (Inr ''Current agent: vera'', \<lparr>CURRENT_AGENT_ID = ''vera'', calls = [], printed = []\<rparr>)
   \<and> handle_agent_command ''/agent  bob smith ''
       \<lparr>CURRENT_AGENT_ID = ''vera'', calls = [], printed = []\<rparr>
     = (Inr ''Switched agent to: bob smith'',
        \<lparr>CURRENT_AGENT_ID = ''bob smith'', calls = [], printed = []\<rparr>)"
proof -
  let ?s = "\<lparr>CURRENT_AGENT_ID = ''vera'', calls = [], printed = []\<rparr>"
  have e: "strip ''bob smith '' = ''bob smith''"
    by code_simp
  have h1: "\<forall>c\<in>set []. isspace c" by simp
  have h2: "''  '' \<noteq> [] \<and> (\<forall>c\<in>set ''  ''. isspace c) \<and> strip ''bob smith '' \<noteq> []"
    by (simp add: e isspace_def)
  note t = handle_agent_command_cases
    [where w = "[]" and s = ?s and w' = "''  ''" and name = "''bob smith ''" and cmd = "[]"]
  from t h1 have r1: "handle_agent_command (''/agent'' @ []) ?s
      = (Inr (''Current agent: '' @ CURRENT_AGENT_ID ?s), ?s)"
    by blast
  from t h2 have r2: "handle_agent_command (''/agent'' @ ''  '' @ ''bob smith '') ?s
      = (Inr (''Switched agent to: '' @ strip ''bob smith ''),
         ?s\<lparr>CURRENT_AGENT_ID := strip ''bob smith ''\<rparr>)"
    by blast
  from r1 r2 show ?thesis by (simp add: e)
qed

theorem handle_mem_command_search_witness:
  "handle_mem_command \<lparr>mem_client = (\<lambda>h c. Inr (PList [])), oa_client = (\<lambda>h c. Inr ''hi'')\<rparr>
      ''/mem search'' \<lparr>CURRENT_AGENT_ID = ''vera'', calls = [], printed = []\<rparr>
     = (Inr ''Usage: /mem search <query>'',
        \<lparr>CURRENT_AGENT_ID = ''vera'', calls = [], printed = []\<rparr>)
   \<and> handle_mem_command \<lparr>mem_client = (\<lambda>h c. Inr (PList [])), oa_client = (\<lambda>h c. Inr ''hi'')\<rparr>
      ''/mem SEARCH  hello   world  '' \<lparr>CURRENT_AGENT_ID = ''vera'', calls = [], printed = []\<rparr>
     = (Inr ''No memories found.'',
        \<lparr>CURRENT_AGENT_ID = ''vera'', calls = [Search ''hello   world'' ''vera''],
         printed = []\<rparr>)
   \<and> strip ''hello   world'' = ''hello   world''"
proof -
  let ?s = "\<lparr>CURRENT_AGENT_ID = ''vera'', calls = [], printed = []\<rparr>"
  let ?env = "\<lparr>mem_client = (\<lambda>h c. Inr (PList [])), oa_client = (\<lambda>h c. Inr ''hi'')\<rparr>"
  have l1: "lower ''search'' = ''search''" by code_simp
  have l2: "lower ''SEARCH'' = ''search''" by code_simp
  have st: "strip ''hello   world  '' = ''hello   world''" by code_simp
  have h1: "lower ''search'' = ''search'' \<and> '' '' \<noteq> [] \<and> (\<forall>c\<in>set '' ''. isspace c)
      \<and> (\<forall>c\<in>set []. isspace c)"
    by (simp add: l1 isspace_def)
  have h2: "lower ''SEARCH'' = ''search'' \<and> '' '' \<noteq> [] \<and> (\<forall>c\<in>set '' ''. isspace c)
      \<and> ''  '' \<noteq> [] \<and> (\<forall>c\<in>set ''  ''. isspace c)
      \<and> strip ''hello   world  '' \<noteq> []"
    by (simp add: l2 st isspace_def)
  have h3: "''hello   world'' \<noteq> [] \<and> \<not> isspace (hd ''hello   world'')
      \<and> \<not> isspace (last ''hello   world'')"
    by (simp add: isspace_def)
  have f: "format_memories (PList []) 30 = Inr ''No memories found.''"
    by (simp add: format_memories_def normalize_mem_items_def)
  from h1 handle_mem_command_search
    [where sub = "''search''" and ?w1.0 = "'' ''" and ?w2.0 = "[]" and env = ?env and s = ?s]
  have r1: "handle_mem_command ?env (''/mem'' @ '' '' @ ''search'' @ []) ?s
      = (Inr ''Usage: /mem search <query>'', ?s)"
    by blast
  from h2 handle_mem_command_search
    [where sub = "''SEARCH''" and ?w1.0 = "'' ''" and ?w3.0 = "''  ''"
       and q = "''hello   world  ''" and env = ?env and s = ?s]
  have r2: "handle_mem_command ?env (''/mem'' @ '' '' @ ''SEARCH'' @ ''  '' @ ''hello   world  '') ?s
      = (case mem_client ?env (calls ?s)
                (Search (strip ''hello   world  '') (CURRENT_AGENT_ID ?s)) of
           Inl e \<Rightarrow> Inr (''[mem0 search error] '' @ exn_str e)
         | Inr res \<Rightarrow> format_memories res 30,
         ?s\<lparr>calls := calls ?s @ [Search (strip ''hello   world  '') (CURRENT_AGENT_ID ?s)]\<rparr>)"
    by blast
  from h3 handle_mem_command_search [where q = "''hello   world''"]
  have r3: "strip ''hello   world'' = ''hello   world''"
    by blast
  from r1 r2 r3 show ?thesis by (simp add: f st)
qed

text \<open>
  Claim C9 as stated fails: what follows the subcommand in \<open>/mem search a b\<close> with two
  trailing blanks is not what is searched for; the query is \<open>a b\<close>, without them.
\<close>

theorem handle_mem_command_search_counterexample:
  "snd (handle_mem_command
          \<lparr>mem_client = (\<lambda>h c. Inr (PList [])), oa_client = (\<lambda>h c. Inr ''hi'')\<rparr>
          ''/mem search a b  '' \<lparr>CURRENT_AGENT_ID = ''vera'', calls = [], printed = []\<rparr>)
     = \<lparr>CURRENT_AGENT_ID = ''vera'', calls = [Search ''a b'' ''vera''], printed = []\<rparr>
   \<and> ''a b'' \<noteq> ''a b  ''"
proof -
  have p: "split_max 2 (strip ''/mem search a b  '') = [''/mem'', ''search'', ''a b'']"
    by code_simp
  have l: "lower ''search'' = ''search''"
    by code_simp
  show ?thesis
    by (simp add: handle_mem_command_def mem_call_def p l Let_def)
qed

theorem handle_mem_command_case_insensitive_witness:
  "handle_mem_command \<lparr>mem_client = (\<lambda>h c. Inr (PList [])), oa_client = (\<lambda>h c. Inr ''hi'')\<rparr>
      ''/mem SEARCH etf funds'' \<lparr>CURRENT_AGENT_ID = ''vera'', calls = [], printed = []\<rparr>
   = handle_mem_command \<lparr>mem_client = (\<lambda>h c. Inr (PList [])), oa_client = (\<lambda>h c. Inr ''hi'')\<rparr>
      ''/mem search etf funds'' \<lparr>CURRENT_AGENT_ID = ''vera'', calls = [], printed = []\<rparr>"
proof -
  let ?s = "\<lparr>CURRENT_AGENT_ID = ''vera'', calls = [], printed = []\<rparr>"
  let ?env = "\<lparr>mem_client = (\<lambda>h c. Inr (PList [])), oa_client = (\<lambda>h c. Inr ''hi'')\<rparr>"
  have l: "lower ''SEARCH'' = ''search''" by code_simp
  have h: "'' '' \<noteq> [] \<and> (\<forall>c\<in>set '' ''. isspace c) \<and> (\<forall>c\<in>set ''SEARCH''. \<not> isspace c)
      \<and> ('' etf funds'' = [] \<or> isspace (hd '' etf funds''))"
    by (simp add: isspace_def)
  from h handle_mem_command_case_insensitive
    [where ?w1.0 = "'' ''" and sub = "''SEARCH''" and rest = "'' etf funds''" and env = ?env
       and s = ?s]
  have "handle_mem_command ?env (''/mem'' @ '' '' @ ''SEARCH'' @ '' etf funds'') ?s
      = handle_mem_command ?env (''/mem'' @ '' '' @ lower ''SEARCH'' @ '' etf funds'') ?s"
    by blast
  then show ?thesis by (simp add: l)
qed

section \<open>The chat turn\<close>

lemma format_memories_empty [simp]: "format_memories (PList []) limit = Inr ''No memories found.''"
  by (simp add: format_memories_def normalize_mem_items_def)

text \<open>The three ways a turn can end, with the state each leaves behind.\<close>

lemma chat_once_paths:
  assumes "q = Search user_input (CURRENT_AGENT_ID s)"
    and "mem_client env (calls s) (Search user_input (CURRENT_AGENT_ID s)) = r1"
    and "results = (case r1 of Inl e \<Rightarrow> PList [] | Inr v \<Rightarrow> py_or v (PList []))"
    and "pr = (case r1 of Inl e \<Rightarrow> [''[mem0 search error] '' @ exn_str e] | Inr v \<Rightarrow> [])"
    and "cc = (\<lambda>block. ChatCompletionsCreate ''gpt-4.1-mini''
               [\<lparr>role = ''system'', content = SYSTEM_PROMPT\<rparr>,
                \<lparr>role = ''system'', content = ''Current agent: '' @ CURRENT_AGENT_ID s\<rparr>,
                \<lparr>role = ''system'',
                 content = ''Relevant prior memories:'' @ [CHR 0x0A] @ block\<rparr>,
                \<lparr>role = ''user'', content = user_input\<rparr>] (4 / 10))"
    and "add = (\<lambda>answer. AddMemories
               [\<lparr>role = ''user'', content = user_input\<rparr>,
                \<lparr>role = ''assistant'', content = answer\<rparr>]
               (CURRENT_AGENT_ID s)
               [(''source'', PStr ''local_assistant''),
                (''important'', PBool (should_store_memory user_input answer))])"
  shows "format_memories results 8 = Inl e \<Longrightarrow>
           chat_once env user_input s
             = (Inl e, s\<lparr>calls := calls s @ [q], printed := printed s @ pr\<rparr>)"
    and "format_memories results 8 = Inr block \<Longrightarrow>
         oa_client env (calls s @ [q]) (cc block) = Inl e \<Longrightarrow>
           chat_once env user_input s
             = (Inl e, s\<lparr>calls := calls s @ [q, cc block], printed := printed s @ pr\<rparr>)"
    and "format_memories results 8 = Inr block \<Longrightarrow>
         oa_client env (calls s @ [q]) (cc block) = Inr answer \<Longrightarrow>
         mem_client env (calls s @ [q, cc block]) (add answer) = ra \<Longrightarrow>
           chat_once env user_input s
             = (Inr answer,
                s\<lparr>calls := calls s @ [q, cc block, add answer],
                  printed := printed s @ pr
                    @ (case ra of Inl e \<Rightarrow> [''[mem0 add error] '' @ exn_str e] | Inr v \<Rightarrow> [])\<rparr>)"
proof -
  show "format_memories results 8 = Inl e \<Longrightarrow>
           chat_once env user_input s
             = (Inl e, s\<lparr>calls := calls s @ [q], printed := printed s @ pr\<rparr>)"
    using assms(1-4)
    by (cases r1) (simp_all add: chat_once_def mem_call_def print_def)
  show "format_memories results 8 = Inr block \<Longrightarrow>
         oa_client env (calls s @ [q]) (cc block) = Inl e \<Longrightarrow>
           chat_once env user_input s
             = (Inl e, s\<lparr>calls := calls s @ [q, cc block], printed := printed s @ pr\<rparr>)"
    using assms(1-5)
    by (cases r1) (simp_all add: chat_once_def mem_call_def oa_call_def print_def)
  show "format_memories results 8 = Inr block \<Longrightarrow>
         oa_client env (calls s @ [q]) (cc block) = Inr answer \<Longrightarrow>
         mem_client env (calls s @ [q, cc block]) (add answer) = ra \<Longrightarrow>
           chat_once env user_input s
             = (Inr answer,
                s\<lparr>calls := calls s @ [q, cc block, add answer],
                  printed := printed s @ pr
                    @ (case ra of Inl e \<Rightarrow> [''[mem0 add error] '' @ exn_str e] | Inr v \<Rightarrow> [])\<rparr>)"
    using assms
    by (cases r1; cases ra) (simp_all add: chat_once_def mem_call_def oa_call_def print_def)
qed


text \<open>
  Claim C1. In \<open>chat_once\<close>: when the search call raises, the turn goes on with no
  memories (the completion request carries the block \<open>No memories found.\<close>), the line
  \<open>[mem0 search error] ...\<close> is printed, and the result is whatever the completion call
  gives; when the completion call raises, \<open>chat_once\<close> raises the same exception and no
  add call is made; when the add call raises, the line \<open>[mem0 add error] ...\<close> is printed
  and the answer is returned. An exception is an instance of Python's \<open>Exception\<close>.
\<close>

theorem chat_once_error_handling:
  "let q = Search user_input (CURRENT_AGENT_ID s);
       results = (case mem_client env (calls s) q of
                    Inl e \<Rightarrow> PList []
                  | Inr v \<Rightarrow> py_or v (PList []));
       cc = (\<lambda>block. ChatCompletionsCreate ''gpt-4.1-mini''
               [\<lparr>role = ''system'', content = SYSTEM_PROMPT\<rparr>,
                \<lparr>role = ''system'', content = ''Current agent: '' @ CURRENT_AGENT_ID s\<rparr>,
                \<lparr>role = ''system'',
                 content = ''Relevant prior memories:'' @ [CHR 0x0A] @ block\<rparr>,
                \<lparr>role = ''user'', content = user_input\<rparr>] (4 / 10));
       add = (\<lambda>answer. AddMemories
               [\<lparr>role = ''user'', content = user_input\<rparr>,
                \<lparr>role = ''assistant'', content = answer\<rparr>]
               (CURRENT_AGENT_ID s)
               [(''source'', PStr ''local_assistant''),
                (''important'', PBool (should_store_memory user_input answer))]);
       r = chat_once env user_input s
   in (mem_client env (calls s) q = Inl e1 \<longrightarrow>
         fst r = (case oa_client env (calls s @ [q]) (cc ''No memories found.'') of
                    Inl e \<Rightarrow> Inl e
                  | Inr answer \<Rightarrow> Inr answer)
         \<and> take (length (calls s) + 2) (calls (snd r)) = calls s @ [q, cc ''No memories found.'']
         \<and> take (length (printed s) + 1) (printed (snd r))
             = printed s @ [''[mem0 search error] '' @ exn_str e1])
    \<and> (format_memories results 8 = Inr block
         \<and> oa_client env (calls s @ [q]) (cc block) = Inl e2 \<longrightarrow>
         fst r = Inl e2 \<and> calls (snd r) = calls s @ [q, cc block])
    \<and> (format_memories results 8 = Inr block
         \<and> oa_client env (calls s @ [q]) (cc block) = Inr answer
         \<and> mem_client env (calls s @ [q, cc block]) (add answer) = Inl e3 \<longrightarrow>
         fst r = Inr answer
         \<and> calls (snd r) = calls s @ [q, cc block, add answer]
         \<and> last (printed (snd r)) = ''[mem0 add error] '' @ exn_str e3)"
proof -
  define q where "q = Search user_input (CURRENT_AGENT_ID s)"
  define r1 where "r1 = mem_client env (calls s) (Search user_input (CURRENT_AGENT_ID s))"
  define results where
    "results = (case r1 of Inl e \<Rightarrow> PList [] | Inr v \<Rightarrow> py_or v (PList []))"
  define pr where
    "pr = (case r1 of Inl e \<Rightarrow> [''[mem0 search error] '' @ exn_str e] | Inr v \<Rightarrow> [])"
  define cc where "cc = (\<lambda>block. ChatCompletionsCreate ''gpt-4.1-mini''
               [\<lparr>role = ''system'', content = SYSTEM_PROMPT\<rparr>,
                \<lparr>role = ''system'', content = ''Current agent: '' @ CURRENT_AGENT_ID s\<rparr>,
                \<lparr>role = ''system'',
                 content = ''Relevant prior memories:'' @ [CHR 0x0A] @ block\<rparr>,
                \<lparr>role = ''user'', content = user_input\<rparr>] (4 / 10))"
  define add where "add = (\<lambda>answer. AddMemories
               [\<lparr>role = ''user'', content = user_input\<rparr>,
                \<lparr>role = ''assistant'', content = answer\<rparr>]
               (CURRENT_AGENT_ID s)
               [(''source'', PStr ''local_assistant''),
                (''important'', PBool (should_store_memory user_input answer))])"
  note paths = chat_once_paths [OF q_def r1_def [symmetric] results_def pr_def cc_def add_def]
  have p1: "fst (chat_once env user_input s)
        = (case oa_client env (calls s @ [q]) (cc ''No memories found.'') of
             Inl e \<Rightarrow> Inl e | Inr answer \<Rightarrow> Inr answer)
      \<and> take (length (calls s) + 2) (calls (snd (chat_once env user_input s)))
        = calls s @ [q, cc ''No memories found.'']
      \<and> take (length (printed s) + 1) (printed (snd (chat_once env user_input s)))
        = printed s @ [''[mem0 search error] '' @ exn_str e1]"
    if a: "r1 = Inl e1"
  proof -
    from a have f: "format_memories results 8 = Inr ''No memories found.''"
      by (simp add: results_def)
    from a have pr: "pr = [''[mem0 search error] '' @ exn_str e1]"
      by (simp add: pr_def)
    show ?thesis
    proof (cases "oa_client env (calls s @ [q]) (cc ''No memories found.'')")
      case (Inl e)
      from paths(2) [OF f Inl] show ?thesis by (simp add: Inl pr)
    next
      case (Inr answer)
      from paths(3) [OF f Inr refl] show ?thesis by (simp add: Inr pr)
    qed
  qed
  have p2: "fst (chat_once env user_input s) = Inl e2
      \<and> calls (snd (chat_once env user_input s)) = calls s @ [q, cc block]"
    if "format_memories results 8 = Inr block"
      and "oa_client env (calls s @ [q]) (cc block) = Inl e2"
    using paths(2) [OF that] by simp
  have p3: "fst (chat_once env user_input s) = Inr answer
      \<and> calls (snd (chat_once env user_input s)) = calls s @ [q, cc block, add answer]
      \<and> last (printed (snd (chat_once env user_input s))) = ''[mem0 add error] '' @ exn_str e3"
    if "format_memories results 8 = Inr block"
      and "oa_client env (calls s @ [q]) (cc block) = Inr answer"
      and "mem_client env (calls s @ [q, cc block]) (add answer) = Inl e3"
    using paths(3) [OF that] by simp
  have r1q: "mem_client env (calls s) q = r1"
    by (simp add: r1_def q_def)
  from p1 p2 p3 show ?thesis
    unfolding Let_def q_def [symmetric] cc_def [symmetric] add_def [symmetric] r1q
      results_def [symmetric]
    by blast
qed


theorem chat_once_error_handling_witness:
  "fst (chat_once \<lparr>mem_client = (\<lambda>h c. Inl (OtherException ''down'')),
                    oa_client = (\<lambda>h c. Inr ''hi'')\<rparr>
          ''hello'' \<lparr>CURRENT_AGENT_ID = ''vera'', calls = [], printed = []\<rparr>) = Inr ''hi''
   \<and> take 1 (printed (snd (chat_once \<lparr>mem_client = (\<lambda>h c. Inl (OtherException ''down'')),
                    oa_client = (\<lambda>h c. Inr ''hi'')\<rparr>
          ''hello'' \<lparr>CURRENT_AGENT_ID = ''vera'', calls = [], printed = []\<rparr>)))
       = [''[mem0 search error] down'']
   \<and> last (printed (snd (chat_once \<lparr>mem_client = (\<lambda>h c. Inl (OtherException ''down'')),
                    oa_client = (\<lambda>h c. Inr ''hi'')\<rparr>
          ''hello'' \<lparr>CURRENT_AGENT_ID = ''vera'', calls = [], printed = []\<rparr>)))
       = ''[mem0 add error] down''
   \<and> fst (chat_once \<lparr>mem_client = (\<lambda>h c. Inr PNone),
                    oa_client = (\<lambda>h c. Inl (OtherException ''rate limit''))\<rparr>
          ''hello'' \<lparr>CURRENT_AGENT_ID = ''vera'', calls = [], printed = []\<rparr>)
       = Inl (OtherException ''rate limit'')"
proof -
  let ?s = "\<lparr>CURRENT_AGENT_ID = ''vera'', calls = [], printed = []\<rparr>"
  let ?env1 = "\<lparr>mem_client = (\<lambda>h c. Inl (OtherException ''down'')),
                oa_client = (\<lambda>h c. Inr ''hi'')\<rparr>"
  let ?env2 = "\<lparr>mem_client = (\<lambda>h c. Inr PNone),
                oa_client = (\<lambda>h c. Inl (OtherException ''rate limit''))\<rparr>"
  have t1: "fst (chat_once ?env1 ''hello'' ?s) = Inr ''hi''
      \<and> take 1 (printed (snd (chat_once ?env1 ''hello'' ?s))) = [''[mem0 search error] down'']
      \<and> last (printed (snd (chat_once ?env1 ''hello'' ?s))) = ''[mem0 add error] down''"
    using chat_once_error_handling
      [where env = ?env1 and s = ?s and user_input = "''hello''"
         and ?e1.0 = "OtherException ''down''" and block = "''No memories found.''"
         and answer = "''hi''" and ?e3.0 = "OtherException ''down''"]
    by (simp add: Let_def)
  have t2: "fst (chat_once ?env2 ''hello'' ?s) = Inl (OtherException ''rate limit'')"
    using chat_once_error_handling
      [where env = ?env2 and s = ?s and user_input = "''hello''"
         and block = "''No memories found.''" and ?e2.0 = "OtherException ''rate limit''"]
    by (simp add: Let_def py_or_def)
  from t1 t2 show ?thesis by simp
qed

text \<open>
  Claim C2. Whenever \<open>chat_once\<close> returns an answer, the calls of the turn are the search,
  the completion request and then one \<open>add_memories\<close> call whose arguments are the two
  messages of the turn (the user's input, the assistant's answer), the current agent id,
  and the metadata \<open>source = local_assistant\<close>, \<open>important = should_store_memory(user_input,
  answer)\<close>. For the input \<open>My favorite color is blue, remember that\<close> the heuristic is
  true whatever the answer is.
\<close>

theorem chat_once_persists_turn:
  "(fst (chat_once env user_input s) = Inr answer \<longrightarrow>
      (\<exists>c. calls (snd (chat_once env user_input s))
            = calls s @
              [Search user_input (CURRENT_AGENT_ID s), c,
               AddMemories
                 [\<lparr>role = ''user'', content = user_input\<rparr>,
                  \<lparr>role = ''assistant'', content = answer\<rparr>]
                 (CURRENT_AGENT_ID s)
                 [(''source'', PStr ''local_assistant''),
                  (''important'', PBool (should_store_memory user_input answer))]]))
   \<and> should_store_memory ''My favorite color is blue, remember that'' answer'"
proof (intro conjI impI)
  define r1 where "r1 = mem_client env (calls s) (Search user_input (CURRENT_AGENT_ID s))"
  define results where
    "results = (case r1 of Inl e \<Rightarrow> PList [] | Inr v \<Rightarrow> py_or v (PList []))"
  note paths = chat_once_paths [OF refl r1_def [symmetric] results_def refl refl refl]
  assume a: "fst (chat_once env user_input s) = Inr answer"
  show "\<exists>c. calls (snd (chat_once env user_input s))
            = calls s @
              [Search user_input (CURRENT_AGENT_ID s), c,
               AddMemories
                 [\<lparr>role = ''user'', content = user_input\<rparr>,
                  \<lparr>role = ''assistant'', content = answer\<rparr>]
                 (CURRENT_AGENT_ID s)
                 [(''source'', PStr ''local_assistant''),
                  (''important'', PBool (should_store_memory user_input answer))]]"
  proof (cases "format_memories results 8")
    case (Inl e)
    from paths(1) [OF Inl] a show ?thesis by simp
  next
    case (Inr block)
    note fm = Inr
    let ?c = "ChatCompletionsCreate ''gpt-4.1-mini''
               [\<lparr>role = ''system'', content = SYSTEM_PROMPT\<rparr>,
                \<lparr>role = ''system'', content = ''Current agent: '' @ CURRENT_AGENT_ID s\<rparr>,
                \<lparr>role = ''system'',
                 content = ''Relevant prior memories:'' @ [CHR 0x0A] @ block\<rparr>,
                \<lparr>role = ''user'', content = user_input\<rparr>] (4 / 10)"
    show ?thesis
    proof (cases "oa_client env (calls s @ [Search user_input (CURRENT_AGENT_ID s)]) ?c")
      case (Inl e)
      from paths(2) [OF fm Inl] a show ?thesis by simp
    next
      case (Inr ans)
      from paths(3) [OF fm Inr refl] a show ?thesis by simp
    qed
  qed
next
  have "lower ''My favorite color is blue, remember that''
      = ''my favorite color is blue, '' @ ''remember'' @ '' that''"
    by code_simp
  then have "lower (''My favorite color is blue, remember that'' @ '' '' @ answer')
      = ''my favorite color is blue, '' @ ''remember'' @ ('' that'' @ lower ('' '' @ answer'))"
    by (simp only: lower_append append_assoc)
  then have "py_in ''remember'' (lower (''My favorite color is blue, remember that'' @ '' '' @ answer'))"
    unfolding py_in_iff by blast
  then show "should_store_memory ''My favorite color is blue, remember that'' answer'"
    by (simp add: should_store_memory_def keywords_list_def Let_def)
qed

theorem chat_once_persists_turn_witness:
  "calls (snd (chat_once \<lparr>mem_client = (\<lambda>h c. Inr PNone), oa_client = (\<lambda>h c. Inr ''Noted.'')\<rparr>
          ''My favorite color is blue, remember that''
          \<lparr>CURRENT_AGENT_ID = ''vera'', calls = [], printed = []\<rparr>)) ! 2
     = AddMemories
         [\<lparr>role = ''user'', content = ''My favorite color is blue, remember that''\<rparr>,
          \<lparr>role = ''assistant'', content = ''Noted.''\<rparr>]
         ''vera''
         [(''source'', PStr ''local_assistant''), (''important'', PBool True)]"
proof -
  let ?s = "\<lparr>CURRENT_AGENT_ID = ''vera'', calls = [], printed = []\<rparr>"
  let ?env = "\<lparr>mem_client = (\<lambda>h c. Inr PNone), oa_client = (\<lambda>h c. Inr ''Noted.'')\<rparr>"
  let ?u = "''My favorite color is blue, remember that''"
  have h: "fst (chat_once ?env ?u ?s) = Inr ''Noted.''"
    by (simp add: chat_once_def mem_call_def oa_call_def py_or_def)
  note t = chat_once_persists_turn
    [where env = ?env and user_input = ?u and s = ?s and answer = "''Noted.''"
       and answer' = "''Noted.''"]
  from t h obtain c where
    "calls (snd (chat_once ?env ?u ?s))
       = calls ?s @ [Search ?u (CURRENT_AGENT_ID ?s), c,
           AddMemories [\<lparr>role = ''user'', content = ?u\<rparr>,
                        \<lparr>role = ''assistant'', content = ''Noted.''\<rparr>]
             (CURRENT_AGENT_ID ?s)
             [(''source'', PStr ''local_assistant''),
              (''important'', PBool (should_store_memory ?u ''Noted.''))]]"
    by blast
  moreover from t have "should_store_memory ?u ''Noted.''" by blast
  ultimately show ?thesis by simp
qed

section \<open>The active agent\<close>

text \<open>
  Claim C8. \<open>chat_once\<close> and \<open>handle_mem_command\<close> leave \<open>CURRENT_AGENT_ID\<close> as it was,
  whatever the collaborators return or raise. \<open>handle_agent_command\<close> changes it only
  when the stripped line has a second token, and then to that token, which is not empty,
  with the confirmation of the switch as its result. The normalizer, the formatter and the
  importance heuristic neither read nor assign the global in the source and are functions
  of their arguments alone here.
\<close>

theorem current_agent_id_frame:
  "CURRENT_AGENT_ID (snd (chat_once env user_input s)) = CURRENT_AGENT_ID s
   \<and> CURRENT_AGENT_ID (snd (handle_mem_command env cmd s)) = CURRENT_AGENT_ID s
   \<and> (CURRENT_AGENT_ID (snd (handle_agent_command cmd' s)) \<noteq> CURRENT_AGENT_ID s \<longrightarrow>
        (\<exists>tok name. split_max 1 (strip cmd') = [tok, name] \<and> name \<noteq> []
           \<and> handle_agent_command cmd' s
               = (Inr (''Switched agent to: '' @ name), s\<lparr>CURRENT_AGENT_ID := name\<rparr>)))"
proof (intro conjI impI)
  define r1 where "r1 = mem_client env (calls s) (Search user_input (CURRENT_AGENT_ID s))"
  define results where
    "results = (case r1 of Inl e \<Rightarrow> PList [] | Inr v \<Rightarrow> py_or v (PList []))"
  note paths = chat_once_paths [OF refl r1_def [symmetric] results_def refl refl refl]
  show "CURRENT_AGENT_ID (snd (chat_once env user_input s)) = CURRENT_AGENT_ID s"
  proof (cases "format_memories results 8")
    case (Inl e)
    from paths(1) [OF Inl] show ?thesis by simp
  next
    case (Inr block)
    note fm = Inr
    let ?c = "ChatCompletionsCreate ''gpt-4.1-mini''
               [\<lparr>role = ''system'', content = SYSTEM_PROMPT\<rparr>,
                \<lparr>role = ''system'', content = ''Current agent: '' @ CURRENT_AGENT_ID s\<rparr>,
                \<lparr>role = ''system'',
                 content = ''Relevant prior memories:'' @ [CHR 0x0A] @ block\<rparr>,
                \<lparr>role = ''user'', content = user_input\<rparr>] (4 / 10)"
    show ?thesis
    proof (cases "oa_client env (calls s @ [Search user_input (CURRENT_AGENT_ID s)]) ?c")
      case (Inl e)
      from paths(2) [OF fm Inl] show ?thesis by simp
    next
      case (Inr ans)
      from paths(3) [OF fm Inr refl] show ?thesis by simp
    qed
  qed
next
  show "CURRENT_AGENT_ID (snd (handle_mem_command env cmd s)) = CURRENT_AGENT_ID s"
    by (simp add: handle_mem_command_def mem_call_def Let_def split: sum.splits)
next
  assume ch: "CURRENT_AGENT_ID (snd (handle_agent_command cmd' s)) \<noteq> CURRENT_AGENT_ID s"
  have len: "length (split_max 1 (strip cmd')) \<le> 2"
    using length_split_max [of 1 "strip cmd'"] by simp
  show "\<exists>tok name. split_max 1 (strip cmd') = [tok, name] \<and> name \<noteq> []
           \<and> handle_agent_command cmd' s
               = (Inr (''Switched agent to: '' @ name), s\<lparr>CURRENT_AGENT_ID := name\<rparr>)"
  proof (cases "split_max 1 (strip cmd')")
    case Nil
    with ch show ?thesis by (simp add: handle_agent_command_def)
  next
    case (Cons a ps)
    note outer = Cons
    show ?thesis
    proof (cases ps)
      case Nil
      with outer ch show ?thesis by (simp add: handle_agent_command_def)
    next
      case (Cons b qs)
      with outer len have p: "split_max 1 (strip cmd') = [a, b]" by simp
      then have "strip b = b \<and> b \<noteq> []" by (rule split_max_1_second)
      with p show ?thesis by (simp add: handle_agent_command_def Let_def)
    qed
  qed
qed

theorem current_agent_id_frame_witness:
  "CURRENT_AGENT_ID (snd (chat_once
        \<lparr>mem_client = (\<lambda>h c. Inr PNone), oa_client = (\<lambda>h c. Inr ''hi'')\<rparr> ''hello''
        \<lparr>CURRENT_AGENT_ID = ''vera'', calls = [], printed = []\<rparr>)) = ''vera''
   \<and> CURRENT_AGENT_ID (snd (handle_mem_command
        \<lparr>mem_client = (\<lambda>h c. Inr PNone), oa_client = (\<lambda>h c. Inr ''hi'')\<rparr> ''/mem clear''
        \<lparr>CURRENT_AGENT_ID = ''vera'', calls = [], printed = []\<rparr>)) = ''vera''
   \<and> handle_agent_command ''/agent bob'' \<lparr>CURRENT_AGENT_ID = ''vera'', calls = [], printed = []\<rparr>
       = (Inr ''Switched agent to: bob'',
          \<lparr>CURRENT_AGENT_ID = ''bob'', calls = [], printed = []\<rparr>)"
proof -
  let ?s = "\<lparr>CURRENT_AGENT_ID = ''vera'', calls = [], printed = []\<rparr>"
  let ?env = "\<lparr>mem_client = (\<lambda>h c. Inr PNone), oa_client = (\<lambda>h c. Inr ''hi'')\<rparr>"
  note t = current_agent_id_frame
    [where env = ?env and user_input = "''hello''" and s = ?s and cmd = "''/mem clear''"
       and cmd' = "''/agent bob''"]
  have p: "split_max 1 (strip ''/agent bob'') = [''/agent'', ''bob'']"
    by code_simp
  have b: "strip ''bob'' = ''bob''"
    by code_simp
  from p have h: "CURRENT_AGENT_ID (snd (handle_agent_command ''/agent bob'' ?s))
      \<noteq> CURRENT_AGENT_ID ?s"
    by (simp add: handle_agent_command_def b Let_def)
  from t h obtain tok name where
    "split_max 1 (strip ''/agent bob'') = [tok, name]"
    "handle_agent_command ''/agent bob'' ?s
       = (Inr (''Switched agent to: '' @ name), ?s\<lparr>CURRENT_AGENT_ID := name\<rparr>)"
    by blast
  with p have "handle_agent_command ''/agent bob'' ?s
       = (Inr (''Switched agent to: '' @ ''bob''), ?s\<lparr>CURRENT_AGENT_ID := ''bob''\<rparr>)"
    by simp
  with t show ?thesis by simp
qed

section \<open>The formatter\<close>



lemma py_str_PStr [simp]: "py_str (PStr s) = s"
  by (simp add: py_str_def)

lemma method_get_dict [simp]: "method_get (PDict d) k = Inr (dict_get d k)"
  by (simp add: method_get_def)


lemma dict_get_Nil [simp]: "dict_get [] k = PNone"
  by (simp add: dict_get_def dict_get_default_def)

lemma str_join_one [simp]: "str_join sep [PStr a] = Inr a"
  by (simp add: str_join_def)

lemma str_join_two [simp]: "str_join sep [PStr a, PStr b] = Inr (a @ sep @ b)"
  by (simp add: str_join_def)


























end
